theory Spec2Isabelle
  imports Complex_Main "HOL-Library.Word"
begin

section \<open>The post-processor's read/write view of a span (ddtrace/tracer/post\_processor.go)\<close>

subsection \<open>Values\<close>

text \<open>
  Go's \<open>float64\<close>, as far as this file uses it: values are stored, returned and compared
  with the constants 1.0, -1 and 2. A finite value is the rational it denotes (the two
  zeros are one value, as under Go's \<open>==\<close>); the infinities and NaN are values of their
  own. \<open>f64_eq\<close> is Go's \<open>==\<close>: NaN equals nothing.
\<close>

datatype float64 = Finite rat | PosInf | NegInf | NaN

definition f64_eq :: "float64 \<Rightarrow> float64 \<Rightarrow> bool" where
  "f64_eq a b = (a \<noteq> NaN \<and> b \<noteq> NaN \<and> a = b)"

text \<open>
  A value of type \<open>interface{}\<close>, with the dynamic types that occur in this file:
  \<open>nil\<close>, a string, a \<open>float64\<close>, a bool.
\<close>

datatype any = Nil | Str string | Num float64 | Bool bool

text \<open>
  Indexing a Go map yields the zero value of the element type when the key is absent
  (\<open>m[k]\<close>); the two-result form \<open>v, ok := m[k]\<close> is the map itself, \<open>m k\<close>.
\<close>

definition index_str :: "(string \<rightharpoonup> string) \<Rightarrow> string \<Rightarrow> string" where
  "index_str m k = (case m k of None \<Rightarrow> [] | Some v \<Rightarrow> v)"

definition index_f64 :: "(string \<rightharpoonup> float64) \<Rightarrow> string \<Rightarrow> float64" where
  "index_f64 m k = (case m k of None \<Rightarrow> Finite 0 | Some v \<Rightarrow> v)"

subsection \<open>The tag names\<close>

text \<open>
  The file names its tags through constants of package \<open>ext\<close> and of package
  \<open>tracer\<close> (\<open>keyMeasured\<close>, \<open>keyTopLevel\<close>, \<open>keySamplingPriority\<close>) that are declared
  elsewhere. The model takes them as a parameter: a record with one string per constant.
\<close>

record keys =
  SpanName :: string
  SpanType :: string
  ResourceName :: string
  ServiceName :: string
  HTTPCode :: string
  Environment :: string
  AnalyticsEvent :: string
  EventSampleRate :: string
  ManualKeep :: string
  ManualDrop :: string
  SamplingPriority :: string
  ErrorMsg :: string
  ErrorType :: string
  ErrorStack :: string
  ErrorDetails :: string
  keyMeasured :: string
  keyTopLevel :: string
  keySamplingPriority :: string

text \<open>
  The cases of the switch in \<open>SetTag\<close>, in source order: the metric aggregator tags,
  then the sampling priority tags.
\<close>

definition protected_keys :: "keys \<Rightarrow> string list" where
  "protected_keys K =
     [SpanName K, SpanType K, ResourceName K, ServiceName K, HTTPCode K, Environment K,
      keyMeasured K, keyTopLevel K, AnalyticsEvent K, EventSampleRate K]"

definition sampling_keys :: "keys \<Rightarrow> string list" where
  "sampling_keys K = [ManualKeep K, ManualDrop K, SamplingPriority K, keySamplingPriority K]"

text \<open>The cases of the switch in \<open>Tag\<close>, in source order.\<close>

definition derived_keys :: "keys \<Rightarrow> string list" where
  "derived_keys K =
     [SpanName K, ServiceName K, ResourceName K, SpanType K, AnalyticsEvent K,
      ManualDrop K, ManualKeep K, SamplingPriority K, keySamplingPriority K]"

text \<open>
  The Go compiler rejects a switch in which two case constants are equal, so the
  constants of one switch are pairwise distinct. The switch of \<open>SetTag\<close> names all the
  constants of the switch of \<open>Tag\<close>.
\<close>

definition keys_distinct :: "keys \<Rightarrow> bool" where
  "keys_distinct K = distinct (protected_keys K @ sampling_keys K)"

text \<open>
  One assignment of the constants, for evaluating the model on concrete inputs: the tag
  names of the Datadog tracing conventions.
\<close>

definition dd_keys :: keys where
  "dd_keys =
     \<lparr> SpanName = ''span.name'', SpanType = ''span.type'',
       ResourceName = ''resource.name'', ServiceName = ''service.name'',
       HTTPCode = ''http.status_code'', Environment = ''env'',
       AnalyticsEvent = ''analytics.event'', EventSampleRate = ''_dd1.sr.eausr'',
       ManualKeep = ''manual.keep'', ManualDrop = ''manual.drop'',
       SamplingPriority = ''sampling.priority'',
       ErrorMsg = ''error.msg'', ErrorType = ''error.type'',
       ErrorStack = ''error.stack'', ErrorDetails = ''error.details'',
       keyMeasured = ''_dd.measured'', keyTopLevel = ''_dd.top_level'',
       keySamplingPriority = ''_sampling_priority_v1'' \<rparr>"

subsection \<open>The span record\<close>

text \<open>
  Modelled from the spec: the \<open>span\<close> struct, whose declaration is not part of
  post\_processor.go. The spec's data model gives it an operation name, a service name, a
  resource name, a type, a duration, an error flag, a string-keyed metadata map (Meta)
  and a string-keyed numeric metadata map (Metrics); these are the fields the file reads
  (\<open>GetDuration\<close> returns an \<open>int64\<close>, \<open>IsError\<close> compares the flag with 1). The
  record's mutex is not modelled: every method takes it on entry and releases it on
  return, and the model is sequential.
\<close>

record span =
  Name :: string
  Service :: string
  Resource :: string
  Type :: string
  Duration :: "64 word"
  Error :: "32 word"
  Meta :: "string \<rightharpoonup> string"
  Metrics :: "string \<rightharpoonup> float64"

subsection \<open>Reading through the view\<close>

text \<open>
  \<open>readWriteSpan\<close> embeds a pointer to a span; each method acts on the record the
  pointer refers to. The methods are modelled on that record: a reader is a function of
  the record, a writer returns the record it leaves behind.
\<close>

definition Tag :: "keys \<Rightarrow> string \<Rightarrow> span \<Rightarrow> any" where
  "Tag K key s =
     (if key = SpanName K then Str (Name s)
      else if key = ServiceName K then Str (Service s)
      else if key = ResourceName K then Str (Resource s)
      else if key = SpanType K then Str (Type s)
      else if key = AnalyticsEvent K then
        Bool (f64_eq (index_f64 (Metrics s) (EventSampleRate K)) (Finite 1))
      else if key = ManualDrop K then
        Bool (f64_eq (index_f64 (Metrics s) (keySamplingPriority K)) (Finite (- 1)))
      else if key = ManualKeep K then
        Bool (f64_eq (index_f64 (Metrics s) (keySamplingPriority K)) (Finite 2))
      else if key = SamplingPriority K then
        (case Metrics s (keySamplingPriority K) of Some val \<Rightarrow> Num val | None \<Rightarrow> Nil)
      else if key = keySamplingPriority K then
        (case Metrics s (keySamplingPriority K) of Some val \<Rightarrow> Num val | None \<Rightarrow> Nil)
      else
        (case Meta s key of
           Some val \<Rightarrow> Str val
         | None \<Rightarrow> (case Metrics s key of Some val \<Rightarrow> Num val | None \<Rightarrow> Nil)))"

definition GetName :: "span \<Rightarrow> string" where
  "GetName s = Name s"

definition GetService :: "span \<Rightarrow> string" where
  "GetService s = Service s"

definition GetResource :: "span \<Rightarrow> string" where
  "GetResource s = Resource s"

definition GetType :: "span \<Rightarrow> string" where
  "GetType s = Type s"

definition GetDuration :: "span \<Rightarrow> 64 word" where
  "GetDuration s = Duration s"

definition IsError :: "span \<Rightarrow> bool" where
  "IsError s = (Error s = 1)"

definition ErrorMessage :: "keys \<Rightarrow> span \<Rightarrow> string" where
  "ErrorMessage K s = index_str (Meta s) (ErrorMsg K)"

definition ErrorType_of :: "keys \<Rightarrow> span \<Rightarrow> string" where
  "ErrorType_of K s = index_str (Meta s) (ErrorType K)"

definition ErrorStack_of :: "keys \<Rightarrow> span \<Rightarrow> string" where
  "ErrorStack_of K s = index_str (Meta s) (ErrorStack K)"

definition ErrorDetails_of :: "keys \<Rightarrow> span \<Rightarrow> string" where
  "ErrorDetails_of K s = index_str (Meta s) (ErrorDetails K)"

subsection \<open>Writing through the view\<close>

text \<open>
  \<open>SetTag\<close> returns nothing. Its model returns the record it leaves behind and the calls
  it makes to \<open>log.Debug\<close> (format string and argument). The span's own tag-setting
  routine \<open>setTagLocked\<close>, which the default case calls, is a parameter of the model.
\<close>

datatype log_call = Debug string string

type_synonym tag_setter = "string \<Rightarrow> any \<Rightarrow> span \<Rightarrow> span"

definition SetTag :: "keys \<Rightarrow> tag_setter \<Rightarrow> string \<Rightarrow> any \<Rightarrow> span \<Rightarrow> span \<times> log_call list" where
  "SetTag K setTagLocked' key v s =
     (if key \<in> set (protected_keys K) then
        (s, [Debug ''Setting the tag %v in the processor is not allowed'' key])
      else if key \<in> set (sampling_keys K) then
        (s, [Debug ''Setting sampling priority tag %v in the processor is not allowed'' key])
      else (setTagLocked' key v s, []))"

definition SetOperationName :: "keys \<Rightarrow> tag_setter \<Rightarrow> string \<Rightarrow> span \<Rightarrow> span \<times> log_call list" where
  "SetOperationName K setTagLocked' operationName s =
     SetTag K setTagLocked' (SpanName K) (Str operationName) s"

text \<open>
  Modelled from the spec: \<open>setTagLocked\<close>, the span's own tag-setting routine, which
  post\_processor.go calls and does not define. The spec says of it that the key/value
  pair is written into the record's generic metadata, the string map if the value is
  textual, the numeric map if the value is a number, that the routine decides the map by
  the type of the value, and that a write to an unprotected key followed by a read of
  that key returns the value written. The read looks in Meta before Metrics, so a write
  to one map leaves no entry for the key in the other: the model removes it. For a value
  that is neither textual nor a number the spec names no map; what the routine does with
  it is the parameter \<open>other\<close>.
\<close>

definition setTagLocked :: "tag_setter \<Rightarrow> tag_setter" where
  "setTagLocked other key v s =
     (case v of
        Str t \<Rightarrow> s\<lparr>Meta := (Meta s)(key \<mapsto> t), Metrics := (Metrics s)(key := None)\<rparr>
      | Num x \<Rightarrow> s\<lparr>Metrics := (Metrics s)(key \<mapsto> x), Meta := (Meta s)(key := None)\<rparr>
      | _ \<Rightarrow> other key v s)"

subsection \<open>Dispatching a finished trace to the processor\<close>

text \<open>
  A trace is a slice of pointers to spans. Pointers are addresses into a store of span
  records. A value of the interface type \<open>ddtrace.ReadWriteSpan\<close> is nil or a
  \<open>readWriteSpan\<close> holding a pointer.
\<close>

type_synonym addr = nat

type_synonym store = "addr \<rightharpoonup> span"

datatype ReadWriteSpan = nil_view | readWriteSpan addr

text \<open>
  The processor is a Go function from the slice of views to a bool. It may write to the
  spans through the views, so its model takes the store and returns it with the bool.
\<close>

type_synonym processor = "ReadWriteSpan list \<Rightarrow> store \<Rightarrow> bool \<times> store"

record config =
  postProcessor :: "processor option"

record tracer =
  config :: config

text \<open>
  \<open>newReadWriteSpanSlice\<close> makes a slice of \<open>len(spans)\<close> nil views and assigns
  \<open>rwSlice[i] = readWriteSpan{span}\<close> for each index \<open>i\<close> and element \<open>span\<close> of the
  range loop. \<open>fill\<close> is the loop: the slice so far, the next index, the elements left.
\<close>

fun fill :: "ReadWriteSpan list \<Rightarrow> nat \<Rightarrow> addr list \<Rightarrow> ReadWriteSpan list" where
  "fill rwSlice i [] = rwSlice"
| "fill rwSlice i (sp # rest) = fill (rwSlice[i := readWriteSpan sp]) (Suc i) rest"

definition newReadWriteSpanSlice :: "addr list \<Rightarrow> ReadWriteSpan list" where
  "newReadWriteSpanSlice spans = fill (replicate (length spans) nil_view) 0 spans"

definition runProcessor :: "tracer \<Rightarrow> addr list \<Rightarrow> store \<Rightarrow> bool \<times> store" where
  "runProcessor tr spans \<sigma> =
     (case postProcessor (config tr) of
        None \<Rightarrow> (True, \<sigma>)
      | Some p \<Rightarrow> p (newReadWriteSpanSlice spans) \<sigma>)"

subsection \<open>Sample inputs\<close>

text \<open>Records, tracers and a processor on which the model is evaluated below.\<close>

definition empty_span :: span where
  "empty_span =
     \<lparr>Name = [], Service = [], Resource = [], Type = [], Duration = 0, Error = 0,
      Meta = Map.empty, Metrics = Map.empty\<rparr>"

definition web_span :: span where
  "web_span =
     \<lparr>Name = ''http.request'', Service = ''api'', Resource = ''GET /users'',
      Type = ''web'', Duration = 1500, Error = 0,
      Meta = [''http.method'' \<mapsto> ''GET'', ''custom'' \<mapsto> ''old''],
      Metrics = [''_sampling_priority_v1'' \<mapsto> Finite 2, ''custom'' \<mapsto> Finite 7]\<rparr>"

text \<open>
  A choice for the parameter of \<open>setTagLocked\<close>: a bool or nil is stored in Meta as
  text.
\<close>

definition other_as_text :: tag_setter where
  "other_as_text key v s =
     (case v of
        Bool b \<Rightarrow> s\<lparr>Meta := (Meta s)(key \<mapsto> (if b then ''true'' else ''false''))\<rparr>
      | Nil \<Rightarrow> s\<lparr>Meta := (Meta s)(key \<mapsto> ''<nil>'')\<rparr>
      | _ \<Rightarrow> s)"

definition sample_setter :: tag_setter where
  "sample_setter = setTagLocked other_as_text"

definition no_processor :: tracer where
  "no_processor = \<lparr>config = \<lparr>postProcessor = None\<rparr>\<rparr>"

definition keep_if_second_is_7 :: processor where
  "keep_if_second_is_7 views \<sigma> = (length views = 3 \<and> views ! 1 = readWriteSpan 7, \<sigma>)"

definition with_processor :: tracer where
  "with_processor = \<lparr>config = \<lparr>postProcessor = Some keep_if_second_is_7\<rparr>\<rparr>"

section \<open>Properties\<close>

subsection \<open>Shared facts\<close>

lemma SetTag_protected:
  "key \<in> set (protected_keys K) \<Longrightarrow>
     SetTag K stl key v s =
       (s, [Debug ''Setting the tag %v in the processor is not allowed'' key])"
  by (simp add: SetTag_def)

lemma SetTag_default:
  "key \<notin> set (protected_keys K) \<Longrightarrow> key \<notin> set (sampling_keys K) \<Longrightarrow>
     SetTag K stl key v s = (stl key v s, [])"
  by (simp add: SetTag_def)

text \<open>Every key with a case in \<open>Tag\<close> has a case in \<open>SetTag\<close>.\<close>

lemma derived_subset:
  "set (derived_keys K) \<subseteq> set (protected_keys K) \<union> set (sampling_keys K)"
  by (auto simp: derived_keys_def protected_keys_def sampling_keys_def)

lemma Tag_default:
  "key \<notin> set (derived_keys K) \<Longrightarrow>
     Tag K key s =
       (case Meta s key of
          Some val \<Rightarrow> Str val
        | None \<Rightarrow> (case Metrics s key of Some val \<Rightarrow> Num val | None \<Rightarrow> Nil))"
  by (simp add: Tag_def derived_keys_def)

text \<open>For a key without a case in the switch, \<open>Tag\<close> never returns a bool.\<close>

lemma Tag_default_not_Bool:
  "key \<notin> set (derived_keys K) \<Longrightarrow> Tag K key s \<noteq> Bool b"
  by (simp add: Tag_default split: option.splits)

text \<open>
  Comparing a map entry with a non-zero constant: an absent entry reads as zero, and
  NaN equals nothing, so the comparison holds exactly when the entry is that constant.
\<close>

lemma f64_eq_nonzero:
  "c \<noteq> 0 \<Longrightarrow> f64_eq (index_f64 m k) (Finite c) = (m k = Some (Finite c))"
  by (auto simp: f64_eq_def index_f64_def split: option.splits)

lemma dd_keys_distinct: "keys_distinct dd_keys"
  by (simp add: keys_distinct_def protected_keys_def sampling_keys_def dd_keys_def)

lemma sampling_not_protected:
  "keys_distinct K \<Longrightarrow> key \<in> set (sampling_keys K) \<Longrightarrow> key \<notin> set (protected_keys K)"
  by (auto simp: keys_distinct_def)

lemma sampling_distinct: "keys_distinct K \<Longrightarrow> distinct (sampling_keys K)"
  by (simp add: keys_distinct_def)

text \<open>Which cases of the switch in \<open>Tag\<close> the later constants skip.\<close>

lemma keys_distinct_Tag:
  assumes "keys_distinct K"
  shows "ManualDrop K \<notin> {SpanName K, ServiceName K, ResourceName K, SpanType K, AnalyticsEvent K}"
    and "ManualKeep K \<notin> {SpanName K, ServiceName K, ResourceName K, SpanType K, AnalyticsEvent K,
           ManualDrop K}"
    and "SamplingPriority K \<notin> {SpanName K, ServiceName K, ResourceName K, SpanType K,
           AnalyticsEvent K, ManualDrop K, ManualKeep K}"
    and "keySamplingPriority K \<notin> {SpanName K, ServiceName K, ResourceName K, SpanType K,
           AnalyticsEvent K, ManualDrop K, ManualKeep K}"
proof -
  have d: "distinct (sampling_keys K)"
    using assms by (rule sampling_distinct)
  have "ManualDrop K \<notin> set (protected_keys K)"
    by (rule sampling_not_protected [OF assms]) (simp add: sampling_keys_def)
  then show "ManualDrop K \<notin> {SpanName K, ServiceName K, ResourceName K, SpanType K,
      AnalyticsEvent K}"
    by (simp add: protected_keys_def)
  have "ManualKeep K \<notin> set (protected_keys K)"
    by (rule sampling_not_protected [OF assms]) (simp add: sampling_keys_def)
  then show "ManualKeep K \<notin> {SpanName K, ServiceName K, ResourceName K, SpanType K,
      AnalyticsEvent K, ManualDrop K}"
    using d by (simp add: protected_keys_def sampling_keys_def)
  have "SamplingPriority K \<notin> set (protected_keys K)"
    by (rule sampling_not_protected [OF assms]) (simp add: sampling_keys_def)
  then show "SamplingPriority K \<notin> {SpanName K, ServiceName K, ResourceName K, SpanType K,
      AnalyticsEvent K, ManualDrop K, ManualKeep K}"
    using d by (auto simp: protected_keys_def sampling_keys_def)
  have "keySamplingPriority K \<notin> set (protected_keys K)"
    by (rule sampling_not_protected [OF assms]) (simp add: sampling_keys_def)
  then show "keySamplingPriority K \<notin> {SpanName K, ServiceName K, ResourceName K, SpanType K,
      AnalyticsEvent K, ManualDrop K, ManualKeep K}"
    using d by (auto simp: protected_keys_def sampling_keys_def)
qed

lemma Tag_ManualDrop:
  "keys_distinct K \<Longrightarrow>
     Tag K (ManualDrop K) s =
       Bool (f64_eq (index_f64 (Metrics s) (keySamplingPriority K)) (Finite (- 1)))"
  using keys_distinct_Tag(1) [of K] by (simp add: Tag_def)

lemma Tag_ManualKeep:
  "keys_distinct K \<Longrightarrow>
     Tag K (ManualKeep K) s =
       Bool (f64_eq (index_f64 (Metrics s) (keySamplingPriority K)) (Finite 2))"
  using keys_distinct_Tag(2) [of K] by (simp add: Tag_def)

lemma Tag_SamplingPriority:
  "keys_distinct K \<Longrightarrow>
     Tag K (SamplingPriority K) s =
       (case Metrics s (keySamplingPriority K) of Some val \<Rightarrow> Num val | None \<Rightarrow> Nil)"
  using keys_distinct_Tag(3) [of K] by (simp add: Tag_def)

lemma Tag_keySamplingPriority:
  "keys_distinct K \<Longrightarrow>
     Tag K (keySamplingPriority K) s =
       (case Metrics s (keySamplingPriority K) of Some val \<Rightarrow> Num val | None \<Rightarrow> Nil)"
  using keys_distinct_Tag(4) [of K] by (simp add: Tag_def)

text \<open>
  The loop of \<open>newReadWriteSpanSlice\<close>: started at index \<open>i\<close> with room for the elements
  left, it overwrites exactly the positions \<open>i\<close> up to \<open>i + length rest\<close>, in order. Every
  index it writes is in range, so no assignment is lost.
\<close>

lemma fill_take_drop:
  "i + length rest \<le> length rw \<Longrightarrow>
     fill rw i rest = take i rw @ map readWriteSpan rest @ drop (i + length rest) rw"
proof (induction rest arbitrary: rw i)
  case Nil
  then show ?case by simp
next
  case (Cons sp rest)
  then have i: "i < length rw" by simp
  from Cons.prems have "Suc i + length rest \<le> length (rw[i := readWriteSpan sp])" by simp
  then have "fill (rw[i := readWriteSpan sp]) (Suc i) rest =
      take (Suc i) (rw[i := readWriteSpan sp]) @ map readWriteSpan rest @
      drop (Suc i + length rest) (rw[i := readWriteSpan sp])"
    by (rule Cons.IH)
  also have "take (Suc i) (rw[i := readWriteSpan sp]) = take i rw @ [readWriteSpan sp]"
    using i by (simp add: take_Suc_conv_app_nth)
  also have "drop (Suc i + length rest) (rw[i := readWriteSpan sp]) =
      drop (i + length (sp # rest)) rw"
    by simp
  finally show ?case by simp
qed

lemma newReadWriteSpanSlice_map: "newReadWriteSpanSlice spans = map readWriteSpan spans"
  by (simp add: newReadWriteSpanSlice_def fill_take_drop)

subsection \<open>Writes to protected tags\<close>

text \<open>
  C1. For every key in the protected set (the first case of the switch in \<open>SetTag\<close>:
  operation name, span type, resource name, service name, HTTP status code, environment,
  the measured and top-level markers, the analytics event flag and the analytics sample
  rate) and every value, \<open>SetTag\<close> leaves the record as it was: the record after the call
  is the record before it, so \<open>Tag\<close> at every key, \<open>GetName\<close>, \<open>GetService\<close>,
  \<open>GetResource\<close>, \<open>GetType\<close>, \<open>GetDuration\<close> and the Meta and Metrics maps read the
  same. \<open>SetTag\<close> has no result through which an error could be returned; all it does is
  one call of \<open>log.Debug\<close>. This holds whatever \<open>setTagLocked\<close> does, since it is not
  called.
\<close>

theorem SetTag_protected_frame:
  "key \<in> set (protected_keys K) \<Longrightarrow>
     fst (SetTag K stl key v s) = s \<and>
     (\<forall>k. Tag K k (fst (SetTag K stl key v s)) = Tag K k s) \<and>
     GetName (fst (SetTag K stl key v s)) = GetName s \<and>
     GetService (fst (SetTag K stl key v s)) = GetService s \<and>
     GetResource (fst (SetTag K stl key v s)) = GetResource s \<and>
     GetType (fst (SetTag K stl key v s)) = GetType s \<and>
     GetDuration (fst (SetTag K stl key v s)) = GetDuration s \<and>
     Meta (fst (SetTag K stl key v s)) = Meta s \<and>
     Metrics (fst (SetTag K stl key v s)) = Metrics s \<and>
     snd (SetTag K stl key v s) =
       [Debug ''Setting the tag %v in the processor is not allowed'' key]"
  by (simp add: SetTag_protected)

theorem SetTag_protected_frame_witness:
  "''service.name'' \<in> set (protected_keys dd_keys) \<and>
   fst (SetTag dd_keys sample_setter ''service.name'' (Str ''billing'') web_span) = web_span \<and>
   GetService (fst (SetTag dd_keys sample_setter ''service.name'' (Str ''billing'') web_span))
     = ''api''"
proof -
  have p: "''service.name'' \<in> set (protected_keys dd_keys)"
    by (simp add: protected_keys_def dd_keys_def)
  from SetTag_protected_frame [OF p, of sample_setter "Str ''billing''" web_span] p
  show ?thesis by (simp add: GetService_def web_span_def)
qed

text \<open>
  C9. \<open>SetOperationName\<close> is \<open>SetTag\<close> at the operation name key, which is protected: the
  record, and with it the operation name that \<open>GetName\<close> returns, stays as it was.
\<close>

theorem SetOperationName_noop:
  "SetOperationName K stl operationName s = SetTag K stl (SpanName K) (Str operationName) s \<and>
   fst (SetOperationName K stl operationName s) = s \<and>
   GetName (fst (SetOperationName K stl operationName s)) = GetName s"
  by (simp add: SetOperationName_def SetTag_protected protected_keys_def)

theorem SetOperationName_noop_witness:
  "fst (SetOperationName dd_keys sample_setter ''renamed'' web_span) = web_span \<and>
   GetName (fst (SetOperationName dd_keys sample_setter ''renamed'' web_span)) = ''http.request''"
proof -
  from SetOperationName_noop [of dd_keys sample_setter "''renamed''" web_span]
  have a: "fst (SetOperationName dd_keys sample_setter ''renamed'' web_span) = web_span"
    by blast
  show ?thesis unfolding a by (simp add: GetName_def web_span_def)
qed

subsection \<open>Writes to sampling priority tags\<close>

text \<open>
  C5. For every key in the sampling priority set (manual keep, manual drop, sampling
  priority and the internal sampling priority key) and every value, \<open>SetTag\<close> returns
  with the record as it was, so \<open>Tag\<close> at that key reads the same after the call. The
  case returns before it looks at the record, so this holds for every record, finished
  or not.
\<close>

theorem SetTag_sampling_frame:
  "key \<in> set (sampling_keys K) \<Longrightarrow>
     fst (SetTag K stl key v s) = s \<and>
     Tag K key (fst (SetTag K stl key v s)) = Tag K key s"
proof (cases "key \<in> set (protected_keys K)")
  case True
  then show ?thesis by (simp add: SetTag_protected)
next
  case False
  assume "key \<in> set (sampling_keys K)"
  with False have "SetTag K stl key v s =
      (s, [Debug ''Setting sampling priority tag %v in the processor is not allowed'' key])"
    by (simp add: SetTag_def)
  then show ?thesis by simp
qed

theorem SetTag_sampling_frame_witness:
  "''manual.drop'' \<in> set (sampling_keys dd_keys) \<and>
   fst (SetTag dd_keys sample_setter ''manual.drop'' (Bool True) web_span) = web_span \<and>
   Tag dd_keys ''manual.drop''
     (fst (SetTag dd_keys sample_setter ''manual.drop'' (Bool True) web_span)) = Bool False"
proof -
  have p: "''manual.drop'' \<in> set (sampling_keys dd_keys)"
    by (simp add: sampling_keys_def dd_keys_def)
  from SetTag_sampling_frame [OF p, of sample_setter "Bool True" web_span] p
  show ?thesis by (simp add: Tag_def dd_keys_def web_span_def f64_eq_def index_f64_def)
qed

subsection \<open>Writes to other tags\<close>

text \<open>
  C3, amended. For a key in neither set \<open>SetTag\<close> hands the pair to \<open>setTagLocked\<close>. A
  string goes into Meta and a \<open>float64\<close> into Metrics, and \<open>Tag\<close> at that key then
  returns the value written. A bool is never returned as written, whatever the tag-setting
  routine does: for such a key \<open>Tag\<close> returns a string, a \<open>float64\<close> or nil.
\<close>

theorem SetTag_roundtrip:
  "key \<notin> set (protected_keys K) \<Longrightarrow> key \<notin> set (sampling_keys K) \<Longrightarrow>
     Meta (fst (SetTag K (setTagLocked other) key (Str t) s)) key = Some t \<and>
     Tag K key (fst (SetTag K (setTagLocked other) key (Str t) s)) = Str t \<and>
     Metrics (fst (SetTag K (setTagLocked other) key (Num x) s)) key = Some x \<and>
     Tag K key (fst (SetTag K (setTagLocked other) key (Num x) s)) = Num x \<and>
     (\<forall>stl b. Tag K key (fst (SetTag K stl key (Bool b) s)) \<noteq> Bool b)"
proof -
  assume p: "key \<notin> set (protected_keys K)" and q: "key \<notin> set (sampling_keys K)"
  from p q derived_subset [of K] have d: "key \<notin> set (derived_keys K)" by blast
  have str_case: "Meta (fst (SetTag K (setTagLocked other) key (Str t) s)) key = Some t \<and>
      Tag K key (fst (SetTag K (setTagLocked other) key (Str t) s)) = Str t"
    by (simp add: SetTag_default [OF p q] Tag_default [OF d] setTagLocked_def)
  have num_case: "Metrics (fst (SetTag K (setTagLocked other) key (Num x) s)) key = Some x \<and>
      Tag K key (fst (SetTag K (setTagLocked other) key (Num x) s)) = Num x"
    by (simp add: SetTag_default [OF p q] Tag_default [OF d] setTagLocked_def)
  have "\<forall>stl b. Tag K key (fst (SetTag K stl key (Bool b) s)) \<noteq> Bool b"
    using d by (simp add: Tag_default_not_Bool)
  with str_case num_case show ?thesis by blast
qed

theorem SetTag_roundtrip_witness:
  "''custom'' \<notin> set (protected_keys dd_keys) \<and> ''custom'' \<notin> set (sampling_keys dd_keys) \<and>
   Meta web_span ''custom'' = Some ''old'' \<and>
   Tag dd_keys ''custom''
     (fst (SetTag dd_keys (setTagLocked other_as_text) ''custom'' (Num (Finite 5)) web_span))
     = Num (Finite 5) \<and>
   Tag dd_keys ''custom''
     (fst (SetTag dd_keys (setTagLocked other_as_text) ''custom'' (Str ''new'') web_span))
     = Str ''new''"
proof -
  have p: "''custom'' \<notin> set (protected_keys dd_keys)"
    by (simp add: protected_keys_def dd_keys_def)
  have q: "''custom'' \<notin> set (sampling_keys dd_keys)"
    by (simp add: sampling_keys_def dd_keys_def)
  have m: "Meta web_span ''custom'' = Some ''old''" by (simp add: web_span_def)
  from SetTag_roundtrip [OF p q, of other_as_text "''new''" web_span "Finite 5"] p q m
  show ?thesis by simp
qed

text \<open>
  The round trip as stated for every value fails for a bool: written to a key of neither
  set, it is not what \<open>Tag\<close> returns.
\<close>

theorem SetTag_roundtrip_counterexample:
  "''custom.flag'' \<notin> set (protected_keys dd_keys) \<and>
   ''custom.flag'' \<notin> set (sampling_keys dd_keys) \<and>
   Tag dd_keys ''custom.flag''
     (fst (SetTag dd_keys (setTagLocked other_as_text) ''custom.flag'' (Bool True) empty_span))
     = Str ''true'' \<and>
   Tag dd_keys ''custom.flag''
     (fst (SetTag dd_keys (setTagLocked other_as_text) ''custom.flag'' (Bool True) empty_span))
     \<noteq> Bool True"
  by (simp add: SetTag_def protected_keys_def sampling_keys_def dd_keys_def setTagLocked_def
      other_as_text_def Tag_def empty_span_def)

subsection \<open>Reading tags\<close>

text \<open>
  C4. \<open>Tag\<close> at the manual keep key returns the boolean that is true exactly when the
  Metrics entry of the internal sampling priority key is 2, and at the manual drop key
  the boolean that is true exactly when that entry is -1. For every other entry, and
  when there is none, both are false.
\<close>

theorem Tag_manual_keep_drop:
  assumes "keys_distinct K"
  shows "Tag K (ManualKeep K) s = Bool (Metrics s (keySamplingPriority K) = Some (Finite 2)) \<and>
    Tag K (ManualDrop K) s = Bool (Metrics s (keySamplingPriority K) = Some (Finite (- 1)))"
proof
  have "Tag K (ManualKeep K) s =
      Bool (f64_eq (index_f64 (Metrics s) (keySamplingPriority K)) (Finite 2))"
    using assms by (rule Tag_ManualKeep)
  also have "f64_eq (index_f64 (Metrics s) (keySamplingPriority K)) (Finite 2) =
      (Metrics s (keySamplingPriority K) = Some (Finite 2))"
    by (rule f64_eq_nonzero) simp
  finally show "Tag K (ManualKeep K) s =
      Bool (Metrics s (keySamplingPriority K) = Some (Finite 2))" .
next
  have "Tag K (ManualDrop K) s =
      Bool (f64_eq (index_f64 (Metrics s) (keySamplingPriority K)) (Finite (- 1)))"
    using assms by (rule Tag_ManualDrop)
  also have "f64_eq (index_f64 (Metrics s) (keySamplingPriority K)) (Finite (- 1)) =
      (Metrics s (keySamplingPriority K) = Some (Finite (- 1)))"
    by (rule f64_eq_nonzero) simp
  finally show "Tag K (ManualDrop K) s =
      Bool (Metrics s (keySamplingPriority K) = Some (Finite (- 1)))" .
qed

theorem Tag_manual_keep_drop_witness:
  "keys_distinct dd_keys \<and>
   Tag dd_keys ''manual.keep'' web_span = Bool True \<and>
   Tag dd_keys ''manual.drop'' web_span = Bool False \<and>
   Tag dd_keys ''manual.keep'' empty_span = Bool False \<and>
   Tag dd_keys ''manual.drop'' empty_span = Bool False"
  using Tag_manual_keep_drop [OF dd_keys_distinct, of web_span]
    Tag_manual_keep_drop [OF dd_keys_distinct, of empty_span] dd_keys_distinct
  by (simp add: dd_keys_def web_span_def empty_span_def)

text \<open>
  C10. \<open>Tag\<close> at the public sampling priority key and \<open>Tag\<close> at the internal one return
  the same: the Metrics entry of the internal key when there is one, nil when there is
  none.
\<close>

theorem Tag_sampling_priority_alias:
  "keys_distinct K \<Longrightarrow>
     Tag K (SamplingPriority K) s = Tag K (keySamplingPriority K) s \<and>
     Tag K (keySamplingPriority K) s =
       (case Metrics s (keySamplingPriority K) of Some val \<Rightarrow> Num val | None \<Rightarrow> Nil)"
  by (simp add: Tag_SamplingPriority Tag_keySamplingPriority)

theorem Tag_sampling_priority_alias_witness:
  "keys_distinct dd_keys \<and>
   Tag dd_keys ''sampling.priority'' web_span = Num (Finite 2) \<and>
   Tag dd_keys ''_sampling_priority_v1'' web_span = Num (Finite 2) \<and>
   Tag dd_keys ''sampling.priority'' empty_span = Nil \<and>
   Tag dd_keys ''_sampling_priority_v1'' empty_span = Nil"
  using Tag_sampling_priority_alias [OF dd_keys_distinct, of web_span]
    Tag_sampling_priority_alias [OF dd_keys_distinct, of empty_span] dd_keys_distinct
  by (simp add: dd_keys_def web_span_def empty_span_def)

text \<open>
  C8. For every key without a case in the switch of \<open>Tag\<close>, \<open>Tag\<close> returns the Meta entry
  when there is one, whatever Metrics holds, and turns to Metrics only when Meta has no
  entry.
\<close>

theorem Tag_meta_first:
  "key \<notin> set (derived_keys K) \<Longrightarrow>
     Tag K key s =
       (case Meta s key of
          Some val \<Rightarrow> Str val
        | None \<Rightarrow> (case Metrics s key of Some val \<Rightarrow> Num val | None \<Rightarrow> Nil))"
  by (rule Tag_default)

theorem Tag_meta_first_witness:
  "''custom'' \<notin> set (derived_keys dd_keys) \<and>
   Meta web_span ''custom'' = Some ''old'' \<and> Metrics web_span ''custom'' = Some (Finite 7) \<and>
   Tag dd_keys ''custom'' web_span = Str ''old''"
proof -
  have p: "''custom'' \<notin> set (derived_keys dd_keys)"
    by (simp add: derived_keys_def dd_keys_def)
  from Tag_meta_first [OF p, of web_span] p
  show ?thesis by (simp add: web_span_def)
qed

text \<open>
  C7, amended. For every key without a case in the switch of \<open>Tag\<close> that is in
  neither Meta nor Metrics, \<open>Tag\<close> returns nil. \<open>Tag\<close> is total: it raises nothing.
\<close>

theorem Tag_absent_nil:
  "key \<notin> set (derived_keys K) \<Longrightarrow> Meta s key = None \<Longrightarrow> Metrics s key = None \<Longrightarrow>
     Tag K key s = Nil"
  by (simp add: Tag_default)

theorem Tag_absent_nil_witness:
  "''retries'' \<notin> set (derived_keys dd_keys) \<and>
   Meta empty_span ''retries'' = None \<and> Metrics empty_span ''retries'' = None \<and>
   Tag dd_keys ''retries'' empty_span = Nil"
proof -
  have p: "''retries'' \<notin> set (derived_keys dd_keys)"
    by (simp add: derived_keys_def dd_keys_def)
  have m: "Meta empty_span ''retries'' = None" and n: "Metrics empty_span ''retries'' = None"
    by (simp_all add: empty_span_def)
  from Tag_absent_nil [OF p m n] p m n show ?thesis by simp
qed

text \<open>
  For a key with a case in the switch the maps are not what decides: the operation name
  key is in neither map of the empty record, and \<open>Tag\<close> returns the record's name, the
  empty string.
\<close>

theorem Tag_absent_counterexample:
  "Meta empty_span (SpanName dd_keys) = None \<and> Metrics empty_span (SpanName dd_keys) = None \<and>
   Tag dd_keys (SpanName dd_keys) empty_span = Str [] \<and>
   Tag dd_keys (SpanName dd_keys) empty_span \<noteq> Nil"
  by (simp add: Tag_def empty_span_def)

subsection \<open>Dispatch\<close>

text \<open>
  C2. With a processor registered, \<open>runProcessor\<close> builds one view per span, in the order
  of the trace (as many views as spans, the view at index \<open>i\<close> holding the pointer at
  index \<open>i\<close>), and its result is the result of one application of the processor to
  these views on the store as it stands: the decision is the processor's bool, false when
  it returns false and true when it returns true, and the store is as the processor
  leaves it.
\<close>

theorem runProcessor_callback:
  "postProcessor (config tr) = Some p \<Longrightarrow>
     length (newReadWriteSpanSlice spans) = length spans \<and>
     (\<forall>i<length spans. newReadWriteSpanSlice spans ! i = readWriteSpan (spans ! i)) \<and>
     runProcessor tr spans \<sigma> = p (newReadWriteSpanSlice spans) \<sigma> \<and>
     fst (runProcessor tr spans \<sigma>) = fst (p (map readWriteSpan spans) \<sigma>)"
proof -
  assume registered: "postProcessor (config tr) = Some p"
  have views: "newReadWriteSpanSlice spans = map readWriteSpan spans"
    by (rule newReadWriteSpanSlice_map)
  have "length (newReadWriteSpanSlice spans) = length spans"
    by (simp add: views)
  moreover have "\<forall>i<length spans. newReadWriteSpanSlice spans ! i = readWriteSpan (spans ! i)"
    by (simp add: views)
  moreover have run: "runProcessor tr spans \<sigma> = p (newReadWriteSpanSlice spans) \<sigma>"
    using registered by (simp add: runProcessor_def)
  moreover have "fst (runProcessor tr spans \<sigma>) = fst (p (map readWriteSpan spans) \<sigma>)"
    by (simp add: run views)
  ultimately show ?thesis by blast
qed

theorem runProcessor_callback_witness:
  "postProcessor (config with_processor) = Some keep_if_second_is_7 \<and>
   newReadWriteSpanSlice [4, 7, 9] = [readWriteSpan 4, readWriteSpan 7, readWriteSpan 9] \<and>
   runProcessor with_processor [4, 7, 9] Map.empty = (True, Map.empty) \<and>
   runProcessor with_processor [4, 9, 7] Map.empty = (False, Map.empty)"
proof -
  have c: "postProcessor (config with_processor) = Some keep_if_second_is_7"
    by (simp add: with_processor_def)
  from runProcessor_callback [OF c, of "[4, 7, 9]" Map.empty]
    runProcessor_callback [OF c, of "[4, 9, 7]" Map.empty] c
  show ?thesis
    by (simp add: newReadWriteSpanSlice_map keep_if_second_is_7_def)
qed

text \<open>
  C6. With no processor registered, \<open>runProcessor\<close> returns true for every trace, the
  empty one included, and the store is as it was: no record is touched.
\<close>

theorem runProcessor_no_callback:
  "postProcessor (config tr) = None \<Longrightarrow> runProcessor tr spans \<sigma> = (True, \<sigma>)"
  by (simp add: runProcessor_def)

theorem runProcessor_no_callback_witness:
  "postProcessor (config no_processor) = None \<and>
   runProcessor no_processor [] [0 \<mapsto> web_span] = (True, [0 \<mapsto> web_span]) \<and>
   runProcessor no_processor [0, 0] [0 \<mapsto> web_span] = (True, [0 \<mapsto> web_span])"
proof -
  have c: "postProcessor (config no_processor) = None" by (simp add: no_processor_def)
  from runProcessor_no_callback [OF c, of "[]" "[0 \<mapsto> web_span]"]
    runProcessor_no_callback [OF c, of "[0, 0]" "[0 \<mapsto> web_span]"] c
  show ?thesis by simp
qed

end
